theory Spec2Isabelle
  imports Complex_Main
begin

section \<open>Differential evolution for pixel attacks: the model\<close>

text \<open>
  The development follows \<^verbatim>\<open>differential_evolution.py\<close> function by function.
  Floating-point scores, colours and weights are read as real numbers, integer pixel
  coordinates as integers. Every place where Python raises is a branch returning
  \<open>Inl\<close> of the failure.
\<close>

subsection \<open>Failures\<close>

datatype error =
    ShapeMismatch      \<comment> \<open>the \<^verbatim>\<open>assert\<close> opening \<^verbatim>\<open>generate_image_variants\<close> fails\<close>
  | IndexError         \<comment> \<open>an index outside \<open>[-n, n)\<close> on an axis of extent \<open>n\<close>\<close>
  | EmptyPool          \<comment> \<open>\<^verbatim>\<open>np.random.choice\<close> over an empty pool\<close>
  | EmptyStack         \<comment> \<open>\<^verbatim>\<open>np.stack\<close> of an empty list\<close>
  | BroadcastError     \<comment> \<open>operands whose extents cannot be broadcast together\<close>
  | EmptyReduction     \<comment> \<open>\<^verbatim>\<open>argmax\<close> or \<^verbatim>\<open>argmin\<close> of an empty tensor\<close>
  | TypeError          \<comment> \<open>a reference that does not denote a tensor of the documented rank\<close>
  | ClassifierFailure  \<comment> \<open>whatever the external classifier raises\<close>

text \<open>Sequencing: the first failure ends the computation.\<close>

definition and_then :: "error + 'a \<Rightarrow> ('a \<Rightarrow> error + 'b) \<Rightarrow> error + 'b" where
  "and_then m f = (case m of Inl e \<Rightarrow> Inl e | Inr x \<Rightarrow> f x)"

subsection \<open>Arrays and tensors\<close>

text \<open>
  A three-dimensional numpy array or torch tensor: its \<^verbatim>\<open>shape\<close> and its entries as
  nested lists. The populations have shape \<open>(num_candidates, num_pixels, dim)\<close>, an image
  has shape \<open>(channels, H, W)\<close>. The shape is kept explicitly because the code reads it and
  because an array with an empty axis still has its other extents.
\<close>

record 'a array3 =
  shape :: "nat \<times> nat \<times> nat"
  elems :: "'a list list list"

definition well_shaped :: "'a array3 \<Rightarrow> bool" where
  "well_shaped a =
     (length (elems a) = fst (shape a)
      \<and> list_all (\<lambda>plane. length plane = fst (snd (shape a))
            \<and> list_all (\<lambda>row. length row = snd (snd (shape a))) plane) (elems a))"

definition map_elems :: "('a \<Rightarrow> 'b) \<Rightarrow> 'a array3 \<Rightarrow> 'b array3" where
  "map_elems f a = \<lparr>shape = shape a, elems = map (map (map f)) (elems a)\<rparr>"

text \<open>Python indexing of an axis of extent \<open>n\<close>: negative indices count from the end.\<close>

definition py_index :: "nat \<Rightarrow> int \<Rightarrow> error + nat" where
  "py_index n k =
     (if 0 \<le> k \<and> k < int n then Inr (nat k)
      else if - int n \<le> k \<and> k < 0 then Inr (nat (int n + k))
      else Inl IndexError)"

subsection \<open>Elementwise operations on one-dimensional tensors\<close>

text \<open>
  A binary elementwise operation on tensors of shapes \<open>(n,)\<close> and \<open>(m,)\<close>: equal extents
  pair up, an extent of one is stretched, anything else is refused.
\<close>

definition broadcast2 :: "('a \<Rightarrow> 'b \<Rightarrow> 'c) \<Rightarrow> 'a list \<Rightarrow> 'b list \<Rightarrow> error + 'c list" where
  "broadcast2 f xs ys =
     (if length xs = length ys then Inr (map2 f xs ys)
      else if length xs = 1 then Inr (map (f (hd xs)) ys)
      else if length ys = 1 then Inr (map (\<lambda>x. f x (hd ys)) xs)
      else Inl BroadcastError)"

text \<open>\<^verbatim>\<open>torch.where(cond, x, y)\<close> on three one-dimensional tensors.\<close>

definition where1 :: "bool list \<Rightarrow> 'a list \<Rightarrow> 'a list \<Rightarrow> error + 'a list" where
  "where1 cond xs ys =
     (case broadcast2 Pair xs ys of
        Inl e \<Rightarrow> Inl e
      | Inr xys \<Rightarrow> broadcast2 (\<lambda>c xy. if c then fst xy else snd xy) cond xys)"

text \<open>\<^verbatim>\<open>t.any()\<close> and \<^verbatim>\<open>t.nonzero()\<close> of a boolean tensor of shape \<open>(n,)\<close>; the latter
  has shape \<open>(k, 1)\<close>, one row per true entry, in increasing order.\<close>

definition any_true :: "bool list \<Rightarrow> bool" where
  "any_true bs = list_ex (\<lambda>b. b) bs"

definition nonzero :: "bool list \<Rightarrow> nat list list" where
  "nonzero bs = map (\<lambda>i. [i]) (filter (\<lambda>i. bs ! i) [0..<length bs])"

subsection \<open>Mutation: \<^verbatim>\<open>generate_children\<close>\<close>

text \<open>
  The two calls into \<^verbatim>\<open>np.random\<close> made in iteration \<open>i\<close> of the loop are read from a
  tape: \<open>choice rng i\<close> is the array returned by
  \<^verbatim>\<open>np.random.choice(len(parent_candidates_), size=3, replace=True)\<close> and \<open>uniform rng i\<close>
  the one returned by \<^verbatim>\<open>np.random.uniform(size=num_pixels)\<close>. What numpy promises of
  them is \<open>draws_ok\<close>: three indices into the pool, and \<open>num_pixels\<close> numbers in \<open>[0, 1)\<close>.
\<close>

record rng =
  choice :: "nat \<Rightarrow> nat list"
  uniform :: "nat \<Rightarrow> real list"

definition draws_ok :: "nat \<Rightarrow> nat \<Rightarrow> rng \<Rightarrow> nat \<Rightarrow> bool" where
  "draws_ok pool_size num_pixels r i =
     (length (choice r i) = 3 \<and> list_all (\<lambda>k. k < pool_size) (choice r i)
      \<and> length (uniform r i) = num_pixels \<and> list_all (\<lambda>u. 0 \<le> u \<and> u < 1) (uniform r i))"

text \<open>\<^verbatim>\<open>np.delete(a, i, 0)\<close> for \<open>0 \<le> i < len(a)\<close>.\<close>

definition np_delete :: "'a list \<Rightarrow> nat \<Rightarrow> 'a list" where
  "np_delete xs i = take i xs @ drop (Suc i) xs"

text \<open>\<^verbatim>\<open>np.rint\<close>: the nearest integer, a tie going to the even neighbour.\<close>

definition rint :: "real \<Rightarrow> int" where
  "rint v =
     (let n = \<lfloor>v\<rfloor>; r = v - of_int n
      in if r < 1 / 2 then n else if 1 / 2 < r then n + 1 else if even n then n else n + 1)"

text \<open>\<^verbatim>\<open>parents[0] + F*(parents[1] - parents[2])\<close>, entry by entry over \<open>(num_pixels, dim)\<close>.\<close>

definition linear_combination ::
  "real \<Rightarrow> real list list \<Rightarrow> real list list \<Rightarrow> real list list \<Rightarrow> real list list" where
  "linear_combination F p0 p1 p2 =
     map (\<lambda>j. map (\<lambda>d. p0 ! j ! d + F * (p1 ! j ! d - p2 ! j ! d)) [0..<length (p0 ! j)])
       [0..<length p0]"

definition potential_child ::
  "bool \<Rightarrow> real \<Rightarrow> real list list \<Rightarrow> real list list \<Rightarrow> real list list \<Rightarrow> real list list" where
  "potential_child rounded F p0 p1 p2 =
     (if rounded then map (map (\<lambda>v. of_int (rint v))) (linear_combination F p0 p1 p2)
      else linear_combination F p0 p1 p2)"

text \<open>\<^verbatim>\<open>np.expand_dims(mask, 1)\<close> turns shape \<open>(P,)\<close> into \<open>(P, 1)\<close>;
  \<^verbatim>\<open>np.where(cond, x, y)\<close> with \<open>cond\<close> of shape \<open>(P, 1)\<close> and \<open>x\<close>, \<open>y\<close> of shape
  \<open>(P, D)\<close> reads \<open>cond[j, 0]\<close> for every entry of row \<open>j\<close>.\<close>

definition expand_dims :: "bool list \<Rightarrow> bool list list" where
  "expand_dims bs = map (\<lambda>b. [b]) bs"

definition np_where_rows :: "bool list list \<Rightarrow> 'a list list \<Rightarrow> 'a list list \<Rightarrow> 'a list list" where
  "np_where_rows cond x y =
     map (\<lambda>j. map (\<lambda>d. if cond ! j ! 0 then x ! j ! d else y ! j ! d) [0..<length (y ! j)])
       [0..<length y]"

text \<open>The body of the loop over \<open>i\<close>: the child that competes with parent \<open>i\<close>.\<close>

definition generate_child ::
  "real array3 \<Rightarrow> real \<Rightarrow> real \<Rightarrow> bool \<Rightarrow> rng \<Rightarrow> nat \<Rightarrow> error + real list list" where
  "generate_child parent_candidates cr_prob F rounded r i =
     (let pool = np_delete (elems parent_candidates) i;
          parent_idx = choice r i
      in if pool = [] then Inl EmptyPool
         else if list_ex (\<lambda>k. length pool \<le> k) parent_idx then Inl IndexError
         else
           let parents = map (\<lambda>k. pool ! k) parent_idx;
               potential = potential_child rounded F (parents ! 0) (parents ! 1) (parents ! 2);
               cross = map (\<lambda>u. u < cr_prob) (uniform r i)
           in Inr (np_where_rows (expand_dims cross) potential (elems parent_candidates ! i)))"

text \<open>The loop appends one child per index and stops at the first failure.\<close>

fun children_loop :: "(nat \<Rightarrow> error + 'a) \<Rightarrow> nat list \<Rightarrow> error + 'a list" where
  "children_loop body [] = Inr []"
| "children_loop body (i # rest) =
     (case body i of
        Inl e \<Rightarrow> Inl e
      | Inr child \<Rightarrow>
          (case children_loop body rest of
             Inl e \<Rightarrow> Inl e
           | Inr children \<Rightarrow> Inr (child # children)))"

text \<open>\<^verbatim>\<open>np.stack\<close> refuses an empty list; otherwise the children, each of the parents'
  shape \<open>(num_pixels, dim)\<close>, are stacked into an array of the parents' shape.\<close>

definition generate_children ::
  "real array3 \<Rightarrow> real \<Rightarrow> real \<Rightarrow> bool \<Rightarrow> rng \<Rightarrow> error + real array3" where
  "generate_children parent_candidates cr_prob F rounded r =
     (case children_loop (generate_child parent_candidates cr_prob F rounded r)
             [0..<fst (shape parent_candidates)] of
        Inl e \<Rightarrow> Inl e
      | Inr children \<Rightarrow>
          if children = [] then Inl EmptyStack
          else Inr \<lparr>shape = shape parent_candidates, elems = children\<rparr>)"

text \<open>
  Vocabulary for the properties of the mutation. \<open>pool_index i k\<close> is the agent that sits
  at place \<open>k\<close> of the pool once agent \<open>i\<close> has been deleted; \<open>proposal_unit\<close> is the
  proposal \<open>a + F * (b - c)\<close> for one unit, rounded when rounding is requested.
\<close>

definition pool_index :: "nat \<Rightarrow> nat \<Rightarrow> nat" where
  "pool_index i k = (if k < i then k else Suc k)"


text \<open>For the examples: three agents of two units in two dimensions, and two stretches
  of random tape, one of them drawing the same pool place twice.\<close>

definition example_parents :: "real array3" where
  "example_parents =
     \<lparr>shape = (3, 2, 2), elems = [[[0, 0], [1, 1]], [[2, 0], [0, 2]], [[1, 2], [2, 1]]]\<rparr>"

definition example_rng :: rng where
  "example_rng = \<lparr>choice = (\<lambda>i. [0, 1, 0]), uniform = (\<lambda>i. [1/2, 19/20])\<rparr>"

definition example_rng_dup :: rng where
  "example_rng_dup = \<lparr>choice = (\<lambda>i. [0, 1, 1]), uniform = (\<lambda>i. [1/2, 19/20])\<rparr>"

subsection \<open>Boundary repair\<close>

text \<open>
  The two \<^verbatim>\<open>np.where\<close> passes over the child coordinates and the two over the child
  colours in \<^verbatim>\<open>evolution_step\<close>. Condition and both branches come from the same array,
  so each pass acts on every entry by itself; the second pass reads the result of the
  first.
\<close>

definition repair_coords :: "int \<Rightarrow> int array3 \<Rightarrow> int array3" where
  "repair_coords image_size child_coords =
     (let child_coords1 = map_elems (\<lambda>v. if v < 0 then - v else v) child_coords
      in map_elems (\<lambda>v. if v > image_size - 1 then image_size - 1 - v else v) child_coords1)"

definition repair_pixel_values :: "real array3 \<Rightarrow> real array3" where
  "repair_pixel_values child_pixel_values =
     (let child_pixel_values1 = map_elems (\<lambda>v. if v < 0 then - v else v) child_pixel_values
      in map_elems (\<lambda>v. if v > 1 then 1 - v else v) child_pixel_values1)"

subsection \<open>Tensor storage\<close>

text \<open>
  Torch tensors are mutable and may share storage, so the images live in a store: a
  reference denotes a cell holding either one image (a tensor of shape \<open>(C, H, W)\<close>) or a
  batch of images (shape \<open>(N, C, H, W)\<close>). \<^verbatim>\<open>detach\<close> gives a tensor on the same storage,
  \<^verbatim>\<open>repeat\<close> builds its result in a new cell.
\<close>

datatype tensor = Image "real array3" | Batch "real array3 list"

record store =
  cells :: "nat \<Rightarrow> tensor option"
  next_ref :: nat

definition alloc :: "store \<Rightarrow> tensor \<Rightarrow> nat \<times> store" where
  "alloc s t = (next_ref s, \<lparr>cells = (cells s)(next_ref s \<mapsto> t), next_ref = Suc (next_ref s)\<rparr>)"

definition detach :: "store \<Rightarrow> nat \<Rightarrow> nat" where
  "detach s r = r"

text \<open>\<^verbatim>\<open>t.repeat(n, 1, 1, 1)\<close> for a three-dimensional \<open>t\<close>.\<close>

definition repeat_n :: "store \<Rightarrow> nat \<Rightarrow> nat \<Rightarrow> error + (nat \<times> store)" where
  "repeat_n s r n =
     (case cells s r of
        Some (Image im) \<Rightarrow> Inr (alloc s (Batch (replicate n im)))
      | _ \<Rightarrow> Inl TypeError)"

definition batch_at :: "store \<Rightarrow> nat \<Rightarrow> real array3 list" where
  "batch_at s r = (case cells s r of Some (Batch b) \<Rightarrow> b | _ \<Rightarrow> [])"

subsection \<open>Compositing: \<^verbatim>\<open>generate_image_variants\<close>\<close>

text \<open>
  \<^verbatim>\<open>im[:, x, y] = pixel_val\<close> on one image of shape \<open>(C, H, W)\<close>: \<open>x\<close> indexes the axis of
  extent \<open>H\<close> and \<open>y\<close> the axis of extent \<open>W\<close>, both with Python's indexing; the value
  must have \<open>C\<close> entries, or one entry that is written to every channel.
\<close>

definition assign_pixel :: "real array3 \<Rightarrow> int \<Rightarrow> int \<Rightarrow> real list \<Rightarrow> error + real array3" where
  "assign_pixel im x y pixel_val =
     (case py_index (fst (snd (shape im))) x of
        Inl e \<Rightarrow> Inl e
      | Inr xi \<Rightarrow>
          (case py_index (snd (snd (shape im))) y of
             Inl e \<Rightarrow> Inl e
           | Inr yi \<Rightarrow>
               if length pixel_val = fst (shape im) \<or> length pixel_val = 1 then
                 Inr \<lparr>shape = shape im,
                      elems = map (\<lambda>c. (elems im ! c)
                                [xi := (elems im ! c ! xi)
                                   [yi := (if length pixel_val = 1 then pixel_val ! 0
                                           else pixel_val ! c)]])
                              [0..<fst (shape im)]\<rparr>
               else Inl BroadcastError))"

text \<open>The statement \<^verbatim>\<open>new_imgs[i, :, x, y] = torch.from_numpy(pixel_val)\<close>: an in-place
  write into the storage of \<^verbatim>\<open>new_imgs\<close>.\<close>

definition setitem :: "store \<Rightarrow> nat \<Rightarrow> nat \<Rightarrow> int \<Rightarrow> int \<Rightarrow> real list \<Rightarrow> error + store" where
  "setitem s new_imgs i x y pixel_val =
     (case cells s new_imgs of
        Some (Batch b) \<Rightarrow>
          if i < length b then
            (case assign_pixel (b ! i) x y pixel_val of
               Inl e \<Rightarrow> Inl e
             | Inr im \<Rightarrow> Inr (s\<lparr>cells := (cells s)(new_imgs \<mapsto> Batch (b[i := im]))\<rparr>))
          else Inl IndexError
      | _ \<Rightarrow> Inl TypeError)"

text \<open>The loop over the pixels of candidate \<open>i\<close>, from pixel \<open>j\<close> on.\<close>

fun pixels_loop ::
  "store \<Rightarrow> nat \<Rightarrow> nat \<Rightarrow> nat \<Rightarrow> int list list \<Rightarrow> real list list \<Rightarrow> error + store" where
  "pixels_loop s new_imgs i j [] pixel_vals = Inr s"
| "pixels_loop s new_imgs i j (xy_pair # rest) pixel_vals =
     (case xy_pair of
        x # y # _ \<Rightarrow>
          (case setitem s new_imgs i x y (pixel_vals ! j) of
             Inl e \<Rightarrow> Inl e
           | Inr s' \<Rightarrow> pixels_loop s' new_imgs i (Suc j) rest pixel_vals)
      | _ \<Rightarrow> Inl IndexError)"

text \<open>The loop over the candidates, from candidate \<open>i\<close> on.\<close>

fun candidates_loop ::
  "store \<Rightarrow> nat \<Rightarrow> nat \<Rightarrow> (int list list \<times> real list list) list \<Rightarrow> error + store" where
  "candidates_loop s new_imgs i [] = Inr s"
| "candidates_loop s new_imgs i ((pixel_locs, pixel_vals) # rest) =
     (case pixels_loop s new_imgs i 0 pixel_locs pixel_vals of
        Inl e \<Rightarrow> Inl e
      | Inr s' \<Rightarrow> candidates_loop s' new_imgs (Suc i) rest)"

definition generate_image_variants ::
  "store \<Rightarrow> nat \<Rightarrow> int array3 \<Rightarrow> real array3 \<Rightarrow> error + (nat \<times> store)" where
  "generate_image_variants s img all_candidate_coords all_candidate_pixel_vals =
     (if (fst (shape all_candidate_coords), fst (snd (shape all_candidate_coords)))
           \<noteq> (fst (shape all_candidate_pixel_vals), fst (snd (shape all_candidate_pixel_vals)))
      then Inl ShapeMismatch
      else
        let num_candidates = fst (shape all_candidate_coords)
        in (case repeat_n s (detach s img) num_candidates of
              Inl e \<Rightarrow> Inl e
            | Inr (new_imgs, s1) \<Rightarrow>
                (case candidates_loop s1 new_imgs 0
                        (zip (elems all_candidate_coords) (elems all_candidate_pixel_vals)) of
                   Inl e \<Rightarrow> Inl e
                 | Inr s2 \<Rightarrow> Inr (new_imgs, s2))))"



text \<open>The batch behind the reference that \<^verbatim>\<open>generate_image_variants\<close> returns.\<close>

definition returned_batch :: "error + (nat \<times> store) \<Rightarrow> error + real array3 list" where
  "returned_batch res = (case res of Inl e \<Rightarrow> Inl e | Inr rs \<Rightarrow> Inr (batch_at (snd rs) (fst rs)))"

text \<open>For the examples: a black one-channel image of two by two pixels, stored at
  reference 0.\<close>

definition black_2x2 :: "real array3" where
  "black_2x2 = \<lparr>shape = (1, 2, 2), elems = [[[0, 0], [0, 0]]]\<rparr>"

definition example_store :: store where
  "example_store = \<lparr>cells = (\<lambda>r. None)(0 \<mapsto> Image black_2x2), next_ref = 1\<rparr>"

text \<open>
  Reading a coordinate from the end of its axis: an index \<open>k\<close> with \<open>- n \<le> k < 0\<close> on an
  axis of extent \<open>n\<close> is replaced by \<open>n + k\<close>, any other index is kept. \<open>from_the_end\<close>
  does this to the \<open>x\<close> and \<open>y\<close> of every listed position; \<open>batch_shaped\<close> says that all
  images of a stored batch have one shape.
\<close>

definition wrap_index :: "nat \<Rightarrow> int \<Rightarrow> int" where
  "wrap_index n k = (if - int n \<le> k \<and> k < 0 then int n + k else k)"

definition wrap_pair :: "nat \<Rightarrow> nat \<Rightarrow> int list \<Rightarrow> int list" where
  "wrap_pair H W xy_pair =
     (case xy_pair of x # y # zs \<Rightarrow> wrap_index H x # wrap_index W y # zs | _ \<Rightarrow> xy_pair)"

definition from_the_end :: "nat \<Rightarrow> nat \<Rightarrow> int array3 \<Rightarrow> int array3" where
  "from_the_end H W coords =
     \<lparr>shape = shape coords, elems = map (map (wrap_pair H W)) (elems coords)\<rparr>"

definition batch_shaped :: "nat \<times> nat \<times> nat \<Rightarrow> store \<Rightarrow> nat \<Rightarrow> bool" where
  "batch_shaped sh s r = list_all (\<lambda>im. shape im = sh) (batch_at s r)"

definition black_3x3 :: "real array3" where
  "black_3x3 = \<lparr>shape = (1, 3, 3), elems = [[[0, 0, 0], [0, 0, 0], [0, 0, 0]]]\<rparr>"

subsection \<open>Fitness evaluation: \<^verbatim>\<open>evaluation_step\<close>\<close>

text \<open>
  The classifier is external: any function from a batch of images to a score tensor of
  shape \<open>(batch, classes)\<close>, or to a failure. \<open>column l k\<close> is \<^verbatim>\<open>l[:, k]\<close>.
\<close>

record logits =
  classes :: nat
  rows :: "real list list"

type_synonym classifier = "real array3 list \<Rightarrow> error + logits"

definition column :: "logits \<Rightarrow> int \<Rightarrow> error + real list" where
  "column l k =
     (case py_index (classes l) k of
        Inl e \<Rightarrow> Inl e
      | Inr c \<Rightarrow> Inr (map (\<lambda>row. row ! c) (rows l)))"

text \<open>
  The four printed lines are not part of the result; what remains of them is that
  \<^verbatim>\<open>argmax\<close> and \<^verbatim>\<open>argmin\<close> refuse an empty tensor.
\<close>

definition evaluation_step ::
  "classifier \<Rightarrow> real array3 list \<Rightarrow> real array3 list \<Rightarrow> int \<Rightarrow> int
     \<Rightarrow> error + (bool list \<times> real list \<times> real list)" where
  "evaluation_step model parent_imgs child_imgs target_class actual_class =
     and_then (model parent_imgs) (\<lambda>parent_logits.
     and_then (model child_imgs) (\<lambda>child_logits.
     and_then (column parent_logits target_class) (\<lambda>parent_target.
     and_then (column parent_logits actual_class) (\<lambda>parent_actual.
     and_then (column child_logits target_class) (\<lambda>child_target.
     and_then (column child_logits actual_class) (\<lambda>child_actual.
     let parent_divergence = map2 (\<lambda>t a. t - a) parent_target parent_actual;
         child_divergence = map2 (\<lambda>t a. t - a) child_target child_actual
     in
     and_then (broadcast2 (\<lambda>p c. p - c) parent_actual child_actual) (\<lambda>actual_class_degradation.
     and_then (broadcast2 (\<lambda>c p. c \<ge> p) child_divergence parent_divergence) (\<lambda>update_mask.
     and_then (where1 update_mask child_target parent_target) (\<lambda>new_target_logits.
     and_then (where1 update_mask child_actual parent_actual) (\<lambda>new_actual_logits.
     if new_target_logits = [] \<or> new_actual_logits = [] then Inl EmptyReduction
     else Inr (update_mask, new_target_logits, new_actual_logits)))))))))))"


text \<open>A stub classifier with two classes, for the examples: the score of class 0 is the
  first-channel value of pixel \<open>(0, 0)\<close>, the score of class 1 is 0.\<close>

definition stub_classifier :: classifier where
  "stub_classifier imgs = Inr \<lparr>classes = 2, rows = map (\<lambda>im. [elems im ! 0 ! 0 ! 0, 0]) imgs\<rparr>"

subsection \<open>Convergence check: \<^verbatim>\<open>stopping_criterion\<close>\<close>

definition stopping_criterion ::
  "real list \<Rightarrow> real list \<Rightarrow> error + (bool \<times> nat list list option)" where
  "stopping_criterion target_logits actual_logits =
     (case broadcast2 (\<lambda>t a. t > a) target_logits actual_logits of
        Inl e \<Rightarrow> Inl e
      | Inr exceeds \<Rightarrow>
          if any_true exceeds then Inr (True, Some (nonzero exceeds))
          else Inr (False, None))"

subsection \<open>One generation: \<^verbatim>\<open>evolution_step\<close>\<close>

text \<open>
  \<^verbatim>\<open>np.where(np.expand_dims(mask, (1,2)), x, y)\<close> for a mask of shape \<open>(M,)\<close> and two
  arrays \<open>x\<close>, \<open>y\<close> of one shape \<open>(N, P, D)\<close>: the mask, of shape \<open>(M, 1, 1)\<close>, is
  stretched over the pixels and their components; along the first axis equal extents
  pair up and an extent of one is stretched.
\<close>

definition np_where_agents :: "bool list \<Rightarrow> 'a array3 \<Rightarrow> 'a array3 \<Rightarrow> error + 'a array3" where
  "np_where_agents cond x y =
     (let m = length cond; n = fst (shape y)
      in if m = n \<or> m = 1 \<or> n = 1 then
           Inr \<lparr>shape = (if n = 1 then m else n, snd (shape y)),
                elems =
                  map (\<lambda>i. map (\<lambda>j. map (\<lambda>k.
                         if cond ! (if m = 1 then 0 else i)
                         then elems x ! (if n = 1 then 0 else i) ! j ! k
                         else elems y ! (if n = 1 then 0 else i) ! j ! k)
                       [0..<snd (snd (shape y))]) [0..<fst (snd (shape y))])
                    [0..<(if n = 1 then m else n)]\<rparr>
         else Inl BroadcastError)"

text \<open>
  The coordinates are an integer array. In \<^verbatim>\<open>generate_children\<close> numpy promotes them
  to floats when they meet \<open>F\<close>, and \<^verbatim>\<open>np.rint(...).astype(int)\<close> brings the proposal
  back to integers before it is merged with the integer parent; so the coordinates pass
  through \<open>generate_children\<close> as the reals they denote and the child array is read back
  as integers.
\<close>

definition astype_float :: "int array3 \<Rightarrow> real array3" where
  "astype_float a = map_elems of_int a"

definition astype_int :: "real array3 \<Rightarrow> int array3" where
  "astype_int a = map_elems (\<lambda>v. if 0 \<le> v then \<lfloor>v\<rfloor> else \<lceil>v\<rceil>) a"

text \<open>The two calls of \<^verbatim>\<open>generate_children\<close> consume two stretches of the random tape,
  \<open>r_coords\<close> and \<open>r_vals\<close>.\<close>

definition evolution_step ::
  "store \<Rightarrow> classifier \<Rightarrow> nat \<Rightarrow> int array3 \<Rightarrow> real array3 \<Rightarrow> int \<Rightarrow> int \<Rightarrow> real \<Rightarrow> real
     \<Rightarrow> rng \<Rightarrow> rng
     \<Rightarrow> error + ((bool list \<times> int array3 \<times> real array3 \<times> bool \<times> nat list list option) \<times> store)" where
  "evolution_step s model img parent_coords parent_pixel_vals target_class actual_class
       cr_prob F r_coords r_vals =
     and_then (generate_children (astype_float parent_coords) cr_prob F True r_coords)
       (\<lambda>child_coords0.
     and_then (generate_children parent_pixel_vals cr_prob F False r_vals)
       (\<lambda>child_pixel_values0.
     and_then (case cells s img of Some (Image base) \<Rightarrow> Inr (int (fst (snd (shape base))))
                                | _ \<Rightarrow> Inl TypeError)
       (\<lambda>image_size.
     let child_coords = repair_coords image_size (astype_int child_coords0);
         child_pixel_values = repair_pixel_values child_pixel_values0
     in
     and_then (generate_image_variants s img parent_coords parent_pixel_vals)
       (\<lambda>parent_variants.
     and_then (generate_image_variants (snd parent_variants) img child_coords child_pixel_values)
       (\<lambda>child_variants.
     let parent_imgs = fst parent_variants; child_imgs = fst child_variants;
         s2 = snd child_variants
     in
     and_then (evaluation_step model (batch_at s2 parent_imgs) (batch_at s2 child_imgs)
                 target_class actual_class)
       (\<lambda>evaluated.
     let update_mask = fst evaluated;
         new_target_logits = fst (snd evaluated);
         new_actual_logits = snd (snd evaluated)
     in
     and_then (stopping_criterion new_target_logits new_actual_logits)
       (\<lambda>stopping.
     and_then (np_where_agents update_mask child_coords parent_coords)
       (\<lambda>next_gen_coords.
     and_then (np_where_agents update_mask child_pixel_values parent_pixel_vals)
       (\<lambda>next_gen_pixel_vals.
     Inr ((update_mask, next_gen_coords, next_gen_pixel_vals, fst stopping, snd stopping),
          s2))))))))))"

text \<open>For the example of a whole generation: two agents of one pixel each, on the black
  two by two image, with a tape on which every unit crosses over.\<close>

definition example_rng_pair :: rng where
  "example_rng_pair = \<lparr>choice = (\<lambda>i. [0, 0, 0]), uniform = (\<lambda>i. [1/2])\<rparr>"

definition example_coords :: "int array3" where
  "example_coords = \<lparr>shape = (2, 1, 2), elems = [[[0, 0]], [[1, 1]]]\<rparr>"

definition example_pixel_vals :: "real array3" where
  "example_pixel_vals = \<lparr>shape = (2, 1, 1), elems = [[[1/2]], [[1/4]]]\<rparr>"

section \<open>Properties\<close>

subsection \<open>Sequencing and indexing\<close>

lemma and_then_Inr [simp]: "and_then (Inr x) f = f x"
  by (simp add: and_then_def)

lemma and_then_Inl [simp]: "and_then (Inl e) f = Inl e"
  by (simp add: and_then_def)


subsection \<open>One-dimensional tensors\<close>

lemma any_true_iff: "any_true bs \<longleftrightarrow> (\<exists>i<length bs. bs ! i)"
proof
  assume "any_true bs"
  then have "True \<in> set bs" by (auto simp: any_true_def list_ex_iff)
  then obtain i where "i < length bs" "bs ! i = True" unfolding in_set_conv_nth by blast
  then show "\<exists>i<length bs. bs ! i" by blast
next
  assume "\<exists>i<length bs. bs ! i"
  then obtain i where "i < length bs" "bs ! i" by blast
  then have "True \<in> set bs" by (metis nth_mem)
  then show "any_true bs" unfolding any_true_def list_ex_iff by blast
qed

lemma broadcast2_same_length:
  "length xs = length ys \<Longrightarrow> broadcast2 f xs ys = Inr (map2 f xs ys)"
  by (simp add: broadcast2_def)

lemma nonzero_map2:
  assumes "length xs = length ys"
  shows "nonzero (map2 f xs ys) =
    map (\<lambda>i. [i]) (filter (\<lambda>i. f (xs ! i) (ys ! i)) [0..<length xs])"
proof -
  have "filter (\<lambda>i. map2 f xs ys ! i) [0..<length xs] =
      filter (\<lambda>i. f (xs ! i) (ys ! i)) [0..<length xs]"
    by (rule filter_cong) (use assms in simp_all)
  then show ?thesis
    using assms by (simp add: nonzero_def)
qed

lemma any_true_map2:
  assumes "length xs = length ys"
  shows "any_true (map2 f xs ys) \<longleftrightarrow> (\<exists>i<length xs. f (xs ! i) (ys ! i))"
proof -
  have "(\<exists>i<length (map2 f xs ys). map2 f xs ys ! i) \<longleftrightarrow> (\<exists>i<length xs. f (xs ! i) (ys ! i))"
    using assms by (simp cong: conj_cong)
  then show ?thesis
    by (simp only: any_true_iff)
qed

subsection \<open>Convergence check\<close>

text \<open>
  C2. For score vectors of equal length \<open>N\<close> the check returns, and it stops exactly when
  some agent's target score is strictly greater than its actual score. When it stops, the
  rows it reports are the indices with that strict inequality, in increasing order, and
  so their set is exactly the set of such agents: an agent whose two scores are equal is
  never among them. When it does not stop, it reports no agent.
\<close>

theorem stopping_criterion_strict:
  assumes "length target_logits = length actual_logits"
  shows "stopping_criterion target_logits actual_logits =
           (if \<exists>i<length target_logits. target_logits ! i > actual_logits ! i
            then Inr (True, Some (map (\<lambda>i. [i])
                   (filter (\<lambda>i. target_logits ! i > actual_logits ! i)
                      [0..<length target_logits])))
            else Inr (False, None))
         \<and> set (concat (map (\<lambda>i. [i])
                   (filter (\<lambda>i. target_logits ! i > actual_logits ! i)
                      [0..<length target_logits])))
             = {i. i < length target_logits \<and> target_logits ! i > actual_logits ! i}"
proof
  show "stopping_criterion target_logits actual_logits =
           (if \<exists>i<length target_logits. target_logits ! i > actual_logits ! i
            then Inr (True, Some (map (\<lambda>i. [i])
                   (filter (\<lambda>i. target_logits ! i > actual_logits ! i)
                      [0..<length target_logits])))
            else Inr (False, None))"
    by (simp add: stopping_criterion_def broadcast2_same_length [OF assms]
        any_true_map2 [OF assms] nonzero_map2 [OF assms])
  show "set (concat (map (\<lambda>i. [i])
                   (filter (\<lambda>i. target_logits ! i > actual_logits ! i)
                      [0..<length target_logits])))
             = {i. i < length target_logits \<and> target_logits ! i > actual_logits ! i}"
    by auto
qed

theorem stopping_criterion_strict_witness:
  "length [9/10, 2/10 :: real] = length [5/10, 5/10 :: real]
   \<and> stopping_criterion [9/10, 2/10] [5/10, 5/10] = Inr (True, Some [[0]])"
proof -
  have u: "[0..<2] = [0, Suc 0]" by (simp add: upt_conv_Cons)
  have l: "length [9/10, 2/10 :: real] = length [5/10, 5/10 :: real]" by simp
  have e: "\<exists>i<length [9/10, 2/10 :: real]. [9/10, 2/10 :: real] ! i > [5/10, 5/10 :: real] ! i"
    by (rule exI [of _ 0]) simp
  from stopping_criterion_strict [OF l] e
  have "stopping_criterion [9/10, 2/10] [5/10, 5/10] = Inr (True, Some (map (\<lambda>i. [i])
      (filter (\<lambda>i. [9/10, 2/10 :: real] ! i > [5/10, 5/10 :: real] ! i)
         [0..<length [9/10, 2/10 :: real]])))"
    by (simp only: if_True)
  then show ?thesis by (simp add: u)
qed

subsection \<open>Boundary repair\<close>

lemma map_elems_map_elems: "map_elems g (map_elems f a) = map_elems (g \<circ> f) a"
  by (simp add: map_elems_def)

text \<open>
  C3 (as amended). Boundary repair acts on every entry by itself and leaves the shape
  alone, with no clamping and no renormalisation across channels; the two rules are
  applied one after the other, the upper rule reading the result of the negative rule.
  A coordinate \<open>v\<close> becomes \<open>- v\<close> when \<open>1 - size \<le> v < 0\<close>, \<open>size - 1 - v\<close> when
  \<open>v > size - 1\<close>, stays when \<open>0 \<le> v \<le> size - 1\<close>, and becomes \<open>size - 1 + v\<close> when
  \<open>v < 1 - size\<close>, where both rules fire. A colour component \<open>v\<close> becomes \<open>- v\<close> when
  \<open>- 1 \<le> v < 0\<close>, \<open>1 - v\<close> when \<open>v > 1\<close>, stays when \<open>0 \<le> v \<le> 1\<close>, and becomes
  \<open>1 + v\<close> when \<open>v < - 1\<close>. The result may lie outside the valid range.
\<close>

theorem repair_two_passes:
  "repair_coords image_size a =
     \<lparr>shape = shape a,
      elems = map (map (map (\<lambda>v. if v < 0 then (if v < 1 - image_size then image_size - 1 + v else - v)
                                else (if v > image_size - 1 then image_size - 1 - v else v))))
                (elems a)\<rparr>
   \<and> repair_pixel_values b =
     \<lparr>shape = shape b,
      elems = map (map (map (\<lambda>v. if v < 0 then (if v < - 1 then 1 + v else - v)
                                else (if v > 1 then 1 - v else v))))
                (elems b)\<rparr>"
proof
  have "(\<lambda>v. if v > image_size - 1 then image_size - 1 - v else v) \<circ> (\<lambda>v. if v < 0 then - v else v)
      = (\<lambda>v. if v < 0 then (if v < 1 - image_size then image_size - 1 + v else - v)
                                else (if v > image_size - 1 then image_size - 1 - v else v))"
    by (rule ext) auto
  then show "repair_coords image_size a =
     \<lparr>shape = shape a,
      elems = map (map (map (\<lambda>v. if v < 0 then (if v < 1 - image_size then image_size - 1 + v else - v)
                                else (if v > image_size - 1 then image_size - 1 - v else v))))
                (elems a)\<rparr>"
    by (simp add: repair_coords_def map_elems_map_elems) (simp add: map_elems_def)
  have "(\<lambda>v::real. if v > 1 then 1 - v else v) \<circ> (\<lambda>v. if v < 0 then - v else v)
      = (\<lambda>v. if v < 0 then (if v < - 1 then 1 + v else - v)
                                else (if v > 1 then 1 - v else v))"
    by (rule ext) auto
  then show "repair_pixel_values b =
     \<lparr>shape = shape b,
      elems = map (map (map (\<lambda>v. if v < 0 then (if v < - 1 then 1 + v else - v)
                                else (if v > 1 then 1 - v else v))))
                (elems b)\<rparr>"
    by (simp add: repair_pixel_values_def map_elems_map_elems) (simp add: map_elems_def)
qed

theorem repair_two_passes_witness:
  "repair_coords 3 \<lparr>shape = (1, 1, 2), elems = [[[- 1, 4]]]\<rparr> = \<lparr>shape = (1, 1, 2), elems = [[[1, - 2]]]\<rparr>
   \<and> repair_pixel_values \<lparr>shape = (1, 1, 3), elems = [[[- 1/4, 1/2, 5/4]]]\<rparr>
       = \<lparr>shape = (1, 1, 3), elems = [[[1/4, 1/2, - 1/4]]]\<rparr>"
  using repair_two_passes [of 3 "\<lparr>shape = (1, 1, 2), elems = [[[- 1, 4]]]\<rparr>"
      "\<lparr>shape = (1, 1, 3), elems = [[[- 1/4, 1/2, 5/4]]]\<rparr>"]
  by simp

text \<open>
  C3 as stated fails where both rules fire: on an axis of extent 3 the coordinate \<open>- 4\<close>
  is repaired to \<open>- 2\<close>, not to \<open>4\<close>, and the colour component \<open>- 3/2\<close> to \<open>- 1/2\<close>,
  not to \<open>3/2\<close>.
\<close>

theorem repair_single_reflection_counterexample:
  "(- 4 :: int) < 0
   \<and> elems (repair_coords 3 \<lparr>shape = (1, 1, 2), elems = [[[- 4, 1]]]\<rparr>) = [[[- 2, 1]]]
   \<and> (- 2 :: int) \<noteq> - (- 4)
   \<and> (- 3/2 :: real) < 0
   \<and> elems (repair_pixel_values \<lparr>shape = (1, 1, 1), elems = [[[- 3/2]]]\<rparr>) = [[[- 1/2]]]
   \<and> (- 1/2 :: real) \<noteq> - (- 3/2)"
  by (simp add: repair_coords_def repair_pixel_values_def map_elems_def)

subsection \<open>Fitness evaluation\<close>












subsection \<open>Compositing\<close>

lemma well_shaped_lengths:
  assumes "well_shaped a"
  shows "length (elems a) = fst (shape a)"
    and "i < fst (shape a) \<Longrightarrow> length (elems a ! i) = fst (snd (shape a))"
    and "i < fst (shape a) \<Longrightarrow> j < fst (snd (shape a)) \<Longrightarrow> length (elems a ! i ! j) = snd (snd (shape a))"
  using assms by (simp_all add: well_shaped_def list_all_length)

lemma well_shapedI:
  assumes "length (elems a) = fst (shape a)"
    and "\<And>i. i < fst (shape a) \<Longrightarrow> length (elems a ! i) = fst (snd (shape a))"
    and "\<And>i j. i < fst (shape a) \<Longrightarrow> j < fst (snd (shape a)) \<Longrightarrow>
           length (elems a ! i ! j) = snd (snd (shape a))"
  shows "well_shaped a"
  using assms by (simp add: well_shaped_def list_all_length)















lemmas compositing_defs =
  generate_image_variants_def repeat_n_def detach_def alloc_def example_store_def
  black_2x2_def setitem_def assign_pixel_def py_index_def returned_batch_def batch_at_def



lemma assign_pixel_no_mismatch: "assign_pixel im x y v = Inl e \<Longrightarrow> e \<noteq> ShapeMismatch"
  by (auto simp: assign_pixel_def py_index_def split: sum.splits if_splits)

lemma setitem_no_mismatch: "setitem s r i x y v = Inl e \<Longrightarrow> e \<noteq> ShapeMismatch"
  by (auto simp: setitem_def split: option.splits tensor.splits sum.splits if_splits
      dest: assign_pixel_no_mismatch)

lemma pixels_loop_no_mismatch: "pixels_loop s r i j locs vals = Inl e \<Longrightarrow> e \<noteq> ShapeMismatch"
proof (induction locs arbitrary: s j)
  case Nil
  then show ?case by simp
next
  case (Cons xy locs)
  then show ?case
    by (auto split: list.splits sum.splits dest: setitem_no_mismatch)
qed

lemma candidates_loop_no_mismatch: "candidates_loop s r i pairs = Inl e \<Longrightarrow> e \<noteq> ShapeMismatch"
proof (induction pairs arbitrary: s i)
  case Nil
  then show ?case by simp
next
  case (Cons pair pairs)
  then show ?case
    by (cases pair) (auto split: sum.splits dest: pixels_loop_no_mismatch)
qed

text \<open>
  C7. The call fails with the shape mismatch exactly when the leading two extents,
  \<open>(num_candidates, num_pixels)\<close>, of the coordinate array and of the colour array
  disagree. When they disagree this is the outcome whatever the store, the image
  reference and the listed positions are: the check comes before anything is read or
  built, and no store with a new tensor is returned.
\<close>

theorem generate_image_variants_shape_check:
  "generate_image_variants s img coords vals = Inl ShapeMismatch
   \<longleftrightarrow> (fst (shape coords), fst (snd (shape coords))) \<noteq> (fst (shape vals), fst (snd (shape vals)))"
proof (cases "(fst (shape coords), fst (snd (shape coords))) = (fst (shape vals), fst (snd (shape vals)))")
  case False
  then show ?thesis by (simp add: generate_image_variants_def)
next
  case True
  have "generate_image_variants s img coords vals \<noteq> Inl ShapeMismatch"
    using True
    by (auto simp: generate_image_variants_def repeat_n_def
        split: sum.splits option.splits tensor.splits prod.splits
        dest: candidates_loop_no_mismatch)
  with True show ?thesis by simp
qed

theorem generate_image_variants_shape_check_witness:
  "generate_image_variants example_store 0
      \<lparr>shape = (1, 2, 2), elems = [[[7, 7], [0, 0]]]\<rparr> \<lparr>shape = (1, 1, 1), elems = [[[1/2]]]\<rparr>
     = Inl ShapeMismatch
   \<and> generate_image_variants example_store 0
      \<lparr>shape = (1, 1, 2), elems = [[[7, 7]]]\<rparr> \<lparr>shape = (1, 1, 1), elems = [[[1/2]]]\<rparr>
     = Inl IndexError"
proof
  show "generate_image_variants example_store 0
      \<lparr>shape = (1, 2, 2), elems = [[[7, 7], [0, 0]]]\<rparr> \<lparr>shape = (1, 1, 1), elems = [[[1/2]]]\<rparr>
     = Inl ShapeMismatch"
    unfolding generate_image_variants_shape_check by simp
  show "generate_image_variants example_store 0
      \<lparr>shape = (1, 1, 2), elems = [[[7, 7]]]\<rparr> \<lparr>shape = (1, 1, 1), elems = [[[1/2]]]\<rparr>
     = Inl IndexError"
    by (simp add: generate_image_variants_def repeat_n_def detach_def alloc_def example_store_def
        black_2x2_def setitem_def assign_pixel_def py_index_def)
qed

subsection \<open>Negative coordinates\<close>

lemma py_index_wrap: "py_index n (wrap_index n k) = py_index n k"
  by (auto simp: py_index_def wrap_index_def)

lemma assign_pixel_wrap:
  "shape im = (C, H, W) \<Longrightarrow>
     assign_pixel im (wrap_index H x) (wrap_index W y) v = assign_pixel im x y v"
  by (simp add: assign_pixel_def py_index_wrap split: sum.splits)

lemma assign_pixel_shape: "assign_pixel im x y v = Inr im' \<Longrightarrow> shape im' = shape im"
  by (auto simp: assign_pixel_def split: sum.splits if_splits)

lemma setitem_wrap:
  assumes "batch_shaped (C, H, W) s r"
  shows "setitem s r i (wrap_index H x) (wrap_index W y) v = setitem s r i x y v"
proof (cases "\<exists>b. cells s r = Some (Batch b) \<and> i < length b")
  case True
  then obtain b where b: "cells s r = Some (Batch b)" "i < length b" by blast
  with assms have "shape (b ! i) = (C, H, W)"
    by (simp add: batch_shaped_def batch_at_def list_all_length)
  then show ?thesis
    using b by (simp add: setitem_def assign_pixel_wrap)
next
  case False
  then show ?thesis
    by (auto simp: setitem_def split: option.splits tensor.splits)
qed

lemma setitem_shaped:
  assumes "batch_shaped sh s r" and "setitem s r i x y v = Inr s'"
  shows "batch_shaped sh s' r"
proof -
  from assms(2) obtain b im where b: "cells s r = Some (Batch b)" "i < length b"
      "assign_pixel (b ! i) x y v = Inr im" "s' = s\<lparr>cells := (cells s)(r \<mapsto> Batch (b[i := im]))\<rparr>"
    by (auto simp: setitem_def split: option.splits tensor.splits sum.splits if_splits)
  from assms(1) b(1) have all: "\<forall>k<length b. shape (b ! k) = sh"
    by (simp add: batch_shaped_def batch_at_def list_all_length)
  with b(2) assign_pixel_shape [OF b(3)] have "shape im = sh" by simp
  with all b(2) have "\<forall>k<length (b[i := im]). shape (b[i := im] ! k) = sh"
    by (auto simp: nth_list_update)
  then show ?thesis
    using b(4) by (simp add: batch_shaped_def batch_at_def list_all_length)
qed

lemma pixels_loop_wrap:
  assumes "batch_shaped (C, H, W) s r"
  shows "pixels_loop s r i j (map (wrap_pair H W) locs) vals = pixels_loop s r i j locs vals"
  using assms
proof (induction locs arbitrary: s j)
  case Nil
  show ?case by simp
next
  case (Cons xy locs)
  show ?case
  proof (cases "\<exists>x y zs. xy = x # y # zs")
    case False
    then show ?thesis
      by (auto simp: wrap_pair_def split: list.splits)
  next
    case True
    then obtain x y zs where xy: "xy = x # y # zs" by blast
    show ?thesis
    proof (cases "setitem s r i x y (vals ! j)")
      case (Inl e)
      then show ?thesis
        using xy setitem_wrap [OF Cons.prems] by (simp add: wrap_pair_def)
    next
      case (Inr s')
      from setitem_shaped [OF Cons.prems Inr] have "batch_shaped (C, H, W) s' r" .
      from Cons.IH [OF this] Inr show ?thesis
        using xy setitem_wrap [OF Cons.prems] by (simp add: wrap_pair_def)
    qed
  qed
qed

lemma pixels_loop_shaped:
  assumes "batch_shaped sh s r" and "pixels_loop s r i j locs vals = Inr s'"
  shows "batch_shaped sh s' r"
  using assms
proof (induction locs arbitrary: s j)
  case Nil
  then show ?case by simp
next
  case (Cons xy locs)
  from Cons.prems(2) obtain x y zs s1 where xy: "xy = x # y # zs"
      and s1: "setitem s r i x y (vals ! j) = Inr s1"
      and rest: "pixels_loop s1 r i (Suc j) locs vals = Inr s'"
    by (auto split: list.splits sum.splits)
  from Cons.IH [OF setitem_shaped [OF Cons.prems(1) s1] rest] show ?case .
qed

lemma candidates_loop_wrap:
  assumes "batch_shaped (C, H, W) s r"
  shows "candidates_loop s r i (map (\<lambda>p. (map (wrap_pair H W) (fst p), snd p)) pairs)
       = candidates_loop s r i pairs"
  using assms
proof (induction pairs arbitrary: s i)
  case Nil
  show ?case by simp
next
  case (Cons pair pairs)
  obtain locs vals where pair: "pair = (locs, vals)" by (cases pair)
  show ?case
  proof (cases "pixels_loop s r i 0 locs vals")
    case (Inl e)
    then show ?thesis
      using pair pixels_loop_wrap [OF Cons.prems] by simp
  next
    case (Inr s')
    from pixels_loop_shaped [OF Cons.prems Inr] have "batch_shaped (C, H, W) s' r" .
    from Cons.IH [OF this] Inr show ?thesis
      using pair pixels_loop_wrap [OF Cons.prems] by simp
  qed
qed

lemma zip_map_fst: "zip (map f xs) ys = map (\<lambda>p. (f (fst p), snd p)) (zip xs ys)"
  by (induction xs arbitrary: ys) (auto split: list.splits simp: zip_Cons1)

text \<open>
  C10 (as amended). A negative coordinate \<open>- k\<close> with \<open>1 \<le> k \<le> n\<close>, where \<open>n\<close> is the extent
  of the spatial axis it indexes (\<open>H\<close> for \<open>x\<close>, \<open>W\<close> for \<open>y\<close>), is not refused: the call
  behaves exactly as if the coordinate were \<open>n - k\<close>, so it writes the pixel at offset
  \<open>n - k\<close> from the start of the axis. Such coordinates come out of boundary repair: a
  coordinate \<open>v \<ge> size\<close> is repaired to \<open>size - 1 - v \<le> - 1\<close> and stays negative, the
  negative-value rule having run before.
\<close>

theorem negative_coordinates_count_from_the_end:
  assumes "cells s img = Some (Image base)" and "shape base = (C, H, W)"
  shows "generate_image_variants s img (from_the_end H W coords) vals
           = generate_image_variants s img coords vals
         \<and> (\<forall>k. 1 \<le> k \<and> k \<le> H \<longrightarrow> wrap_index H (- int k) = int (H - k))
         \<and> (\<forall>k. 1 \<le> k \<and> k \<le> W \<longrightarrow> wrap_index W (- int k) = int (W - k))
         \<and> (\<forall>v. int H \<le> v \<longrightarrow>
               elems (repair_coords (int H) \<lparr>shape = (1, 1, 1), elems = [[[v]]]\<rparr>)
                 = [[[int H - 1 - v]]] \<and> int H - 1 - v \<le> - 1)"
proof (intro conjI)
  have rep: "repeat_n s (detach s img) n =
      Inr (next_ref s, \<lparr>cells = (cells s)(next_ref s \<mapsto> Batch (replicate n base)),
              next_ref = Suc (next_ref s)\<rparr>)" for n
    using assms(1) by (simp add: repeat_n_def detach_def alloc_def)
  have shaped: "batch_shaped (C, H, W)
      \<lparr>cells = (cells s)(next_ref s \<mapsto> Batch (replicate n base)), next_ref = Suc (next_ref s)\<rparr>
      (next_ref s)" for n
    using assms(2) by (simp add: batch_shaped_def batch_at_def list_all_length)
  show "generate_image_variants s img (from_the_end H W coords) vals
           = generate_image_variants s img coords vals"
    by (simp add: generate_image_variants_def from_the_end_def zip_map_fst rep
        candidates_loop_wrap [OF shaped])
  show "\<forall>k. 1 \<le> k \<and> k \<le> H \<longrightarrow> wrap_index H (- int k) = int (H - k)"
    by (auto simp: wrap_index_def)
  show "\<forall>k. 1 \<le> k \<and> k \<le> W \<longrightarrow> wrap_index W (- int k) = int (W - k)"
    by (auto simp: wrap_index_def)
  show "\<forall>v. int H \<le> v \<longrightarrow>
               elems (repair_coords (int H) \<lparr>shape = (1, 1, 1), elems = [[[v]]]\<rparr>)
                 = [[[int H - 1 - v]]] \<and> int H - 1 - v \<le> - 1"
    by (auto simp: repair_coords_def map_elems_def)
qed


theorem negative_coordinates_count_from_the_end_witness:
  "generate_image_variants example_store 0
       \<lparr>shape = (1, 1, 2), elems = [[[- 1, 0]]]\<rparr> \<lparr>shape = (1, 1, 1), elems = [[[1/2]]]\<rparr>
     = generate_image_variants example_store 0
       \<lparr>shape = (1, 1, 2), elems = [[[1, 0]]]\<rparr> \<lparr>shape = (1, 1, 1), elems = [[[1/2]]]\<rparr>
   \<and> elems (repair_coords 2 \<lparr>shape = (1, 1, 1), elems = [[[2]]]\<rparr>) = [[[- 1]]]
   \<and> returned_batch (generate_image_variants example_store 0
       \<lparr>shape = (1, 1, 2), elems = [[[- 1, 0]]]\<rparr> \<lparr>shape = (1, 1, 1), elems = [[[1/2]]]\<rparr>)
     = Inr [\<lparr>shape = (1, 2, 2), elems = [[[0, 0], [1/2, 0]]]\<rparr>]"
proof -
  have c: "cells example_store 0 = Some (Image black_2x2)" and sh: "shape black_2x2 = (1, 2, 2)"
    by (simp_all add: example_store_def black_2x2_def)
  have w: "from_the_end 2 2 \<lparr>shape = (1, 1, 2), elems = [[[- 1, 0]]]\<rparr>
      = \<lparr>shape = (1, 1, 2), elems = [[[1, 0]]]\<rparr>"
    by (simp add: from_the_end_def wrap_pair_def wrap_index_def)
  from negative_coordinates_count_from_the_end [OF c sh,
      of "\<lparr>shape = (1, 1, 2), elems = [[[- 1, 0]]]\<rparr>" "\<lparr>shape = (1, 1, 1), elems = [[[1/2]]]\<rparr>"]
  have "generate_image_variants example_store 0
       \<lparr>shape = (1, 1, 2), elems = [[[1, 0]]]\<rparr> \<lparr>shape = (1, 1, 1), elems = [[[1/2]]]\<rparr>
     = generate_image_variants example_store 0
       \<lparr>shape = (1, 1, 2), elems = [[[- 1, 0]]]\<rparr> \<lparr>shape = (1, 1, 1), elems = [[[1/2]]]\<rparr>"
    unfolding w by blast
  moreover have "elems (repair_coords 2 \<lparr>shape = (1, 1, 1), elems = [[[2]]]\<rparr>) = [[[- 1]]]"
    by (simp add: repair_coords_def map_elems_def)
  moreover have "returned_batch (generate_image_variants example_store 0
       \<lparr>shape = (1, 1, 2), elems = [[[- 1, 0]]]\<rparr> \<lparr>shape = (1, 1, 1), elems = [[[1/2]]]\<rparr>)
     = Inr [\<lparr>shape = (1, 2, 2), elems = [[[0, 0], [1/2, 0]]]\<rparr>]"
    by (simp add: compositing_defs)
  ultimately show ?thesis by simp
qed

text \<open>
  C10 as stated fails when the repaired coordinate lies below \<open>- n\<close>: on a three by three
  image the coordinate 6 is repaired to \<open>- 4\<close>, and the write at \<open>- 4\<close> is refused with an
  index error.
\<close>

theorem negative_coordinate_out_of_range_counterexample:
  "elems (repair_coords 3 \<lparr>shape = (1, 1, 2), elems = [[[6, 0]]]\<rparr>) = [[[- 4, 0]]]
   \<and> generate_image_variants
        \<lparr>cells = (\<lambda>r. None)(0 \<mapsto> Image black_3x3), next_ref = 1\<rparr> 0
        \<lparr>shape = (1, 1, 2), elems = [[[- 4, 0]]]\<rparr> \<lparr>shape = (1, 1, 1), elems = [[[1/2]]]\<rparr>
      = Inl IndexError"
  by (simp add: repair_coords_def map_elems_def compositing_defs black_3x3_def)

subsection \<open>Mutation\<close>

lemma length_np_delete: "i < length xs \<Longrightarrow> length (np_delete xs i) = length xs - 1"
  by (simp add: np_delete_def)

lemma np_delete_nth:
  "i < length xs \<Longrightarrow> k < length xs - 1 \<Longrightarrow> np_delete xs i ! k = xs ! pool_index i k"
  by (auto simp: np_delete_def pool_index_def nth_append min_def)

lemma pool_index_range: "i < N \<Longrightarrow> k < N - 1 \<Longrightarrow> pool_index i k \<noteq> i \<and> pool_index i k < N"
  by (auto simp: pool_index_def)

lemma pool_index_bij: "i < N \<Longrightarrow> bij_betw (pool_index i) {..<N - 1} ({..<N} - {i})"
  by (rule bij_betw_byWitness [where f' = "\<lambda>m. if m < i then m else m - 1"])
    (auto simp: pool_index_def)

lemma children_loop_all:
  "(\<And>i. i \<in> set idxs \<Longrightarrow> body i = Inr (f i)) \<Longrightarrow> children_loop body idxs = Inr (map f idxs)"
  by (induction idxs) simp_all


lemma generate_child_run:
  assumes "well_shaped pc" and "shape pc = (N, P, D)" and "2 \<le> N" and "i < N"
    and "draws_ok (N - 1) P r i"
  shows "generate_child pc cr F rounded r i =
     Inr (np_where_rows (expand_dims (map (\<lambda>u. u < cr) (uniform r i)))
            (potential_child rounded F
               (elems pc ! pool_index i (choice r i ! 0))
               (elems pc ! pool_index i (choice r i ! 1))
               (elems pc ! pool_index i (choice r i ! 2)))
            (elems pc ! i))"
proof -
  note wl = well_shaped_lengths [OF assms(1), unfolded assms(2), simplified]
  let ?pool = "np_delete (elems pc) i"
  have len: "length ?pool = N - 1"
    using assms(4) wl(1) by (simp add: length_np_delete)
  have ne: "?pool \<noteq> []"
    using len assms(3) by auto
  have c3: "length (choice r i) = 3" and cr: "\<forall>k<3. choice r i ! k < N - 1"
    using assms(5) by (simp_all add: draws_ok_def list_all_length)
  have ok: "\<not> list_ex (\<lambda>k. length ?pool \<le> k) (choice r i)"
    using assms(5) len by (auto simp: draws_ok_def list_ex_iff list_all_iff)
  have par: "map (\<lambda>k. ?pool ! k) (choice r i) ! m = elems pc ! pool_index i (choice r i ! m)"
    if "m < 3" for m
    using that c3 cr assms(4) wl(1) by (simp add: np_delete_nth)
  show ?thesis
    using ne ok par [of 0] par [of 1] par [of 2]
    by (simp add: generate_child_def Let_def)
qed




lemma generate_children_run:
  assumes "well_shaped pc" and "shape pc = (N, P, D)" and "2 \<le> N"
    and "\<forall>i<N. draws_ok (N - 1) P r i"
  shows "generate_children pc cr F rounded r =
     Inr \<lparr>shape = (N, P, D),
          elems = map (\<lambda>i. np_where_rows (expand_dims (map (\<lambda>u. u < cr) (uniform r i)))
            (potential_child rounded F
               (elems pc ! pool_index i (choice r i ! 0))
               (elems pc ! pool_index i (choice r i ! 1))
               (elems pc ! pool_index i (choice r i ! 2)))
            (elems pc ! i)) [0..<N]\<rparr>"
proof -
  let ?child = "\<lambda>i. np_where_rows (expand_dims (map (\<lambda>u. u < cr) (uniform r i)))
            (potential_child rounded F
               (elems pc ! pool_index i (choice r i ! 0))
               (elems pc ! pool_index i (choice r i ! 1))
               (elems pc ! pool_index i (choice r i ! 2)))
            (elems pc ! i)"
  have "children_loop (generate_child pc cr F rounded r) [0..<N] = Inr (map ?child [0..<N])"
  proof (rule children_loop_all)
    fix i assume "i \<in> set [0..<N]"
    then have i: "i < N" by simp
    with assms(4) have "draws_ok (N - 1) P r i" by blast
    then show "generate_child pc cr F rounded r i = Inr (?child i)"
      by (rule generate_child_run [OF assms(1) assms(2) assms(3) i])
  qed
  moreover have "map ?child [0..<N] \<noteq> []"
    using assms(3) by simp
  ultimately show ?thesis
    using assms(2) by (simp add: generate_children_def)
qed


lemma example_parents_ok: "well_shaped example_parents" "shape example_parents = (3, 2, 2)"
  by (simp_all add: example_parents_def well_shaped_def)

lemma example_rng_ok: "draws_ok (3 - 1) 2 example_rng i" "draws_ok (3 - 1) 2 example_rng_dup i"
  by (simp_all add: draws_ok_def example_rng_def example_rng_dup_def)


lemma linear_combination_zero:
  "linear_combination F a b b = a"
proof -
  have "map (\<lambda>d. a ! j ! d) [0..<length (a ! j)] = a ! j" for j
    by (rule map_nth)
  then have "linear_combination F a b b = map (\<lambda>j. a ! j) [0..<length a]"
    by (simp add: linear_combination_def)
  then show ?thesis by (simp add: map_nth)
qed

text \<open>
  C4. In the iteration for agent \<open>i\<close> of a population of \<open>N \<ge> 2\<close> agents, the pool is the
  population without agent \<open>i\<close>: it has \<open>N - 1\<close> places, and place \<open>k\<close> holds agent
  \<open>pool_index i k\<close>, which is never \<open>i\<close>; the places correspond one to one to the agents
  other than \<open>i\<close>, so a draw that is uniform over the places is uniform over those
  agents. The three drawn places select the three parents \<open>a\<close>, \<open>b\<close>, \<open>c\<close>, none of them
  agent \<open>i\<close>. Nothing is asked of the three draws beyond lying in the pool: they may
  coincide, and when \<open>b\<close> and \<open>c\<close> coincide the differential is zero and the proposal is
  parent \<open>a\<close>.
\<close>

theorem generate_children_parent_pool:
  assumes "well_shaped pc" and "shape pc = (N, P, D)" and "2 \<le> N" and "i < N"
    and "draws_ok (N - 1) P r i"
  shows "length (np_delete (elems pc) i) = N - 1
     \<and> (\<forall>k<N - 1. np_delete (elems pc) i ! k = elems pc ! pool_index i k
            \<and> pool_index i k \<noteq> i \<and> pool_index i k < N)
     \<and> bij_betw (pool_index i) {..<N - 1} ({..<N} - {i})
     \<and> (\<forall>m<3. pool_index i (choice r i ! m) \<noteq> i \<and> pool_index i (choice r i ! m) < N)
     \<and> generate_child pc cr F rounded r i =
         Inr (np_where_rows (expand_dims (map (\<lambda>u. u < cr) (uniform r i)))
            (potential_child rounded F
               (elems pc ! pool_index i (choice r i ! 0))
               (elems pc ! pool_index i (choice r i ! 1))
               (elems pc ! pool_index i (choice r i ! 2)))
            (elems pc ! i))
     \<and> (choice r i ! 1 = choice r i ! 2 \<longrightarrow>
          linear_combination F
               (elems pc ! pool_index i (choice r i ! 0))
               (elems pc ! pool_index i (choice r i ! 1))
               (elems pc ! pool_index i (choice r i ! 2))
            = elems pc ! pool_index i (choice r i ! 0))"
proof (intro conjI)
  note wl = well_shaped_lengths [OF assms(1), unfolded assms(2), simplified]
  show "length (np_delete (elems pc) i) = N - 1"
    using assms(4) wl(1) by (simp add: length_np_delete)
  show "\<forall>k<N - 1. np_delete (elems pc) i ! k = elems pc ! pool_index i k
            \<and> pool_index i k \<noteq> i \<and> pool_index i k < N"
    using assms(4) wl(1) pool_index_range [OF assms(4)] by (simp add: np_delete_nth)
  show "bij_betw (pool_index i) {..<N - 1} ({..<N} - {i})"
    by (rule pool_index_bij [OF assms(4)])
  have "\<forall>m<3. choice r i ! m < N - 1"
    using assms(5) by (simp add: draws_ok_def list_all_length)
  then show "\<forall>m<3. pool_index i (choice r i ! m) \<noteq> i \<and> pool_index i (choice r i ! m) < N"
    using pool_index_range [OF assms(4)] by blast
  show "generate_child pc cr F rounded r i =
         Inr (np_where_rows (expand_dims (map (\<lambda>u. u < cr) (uniform r i)))
            (potential_child rounded F
               (elems pc ! pool_index i (choice r i ! 0))
               (elems pc ! pool_index i (choice r i ! 1))
               (elems pc ! pool_index i (choice r i ! 2)))
            (elems pc ! i))"
    by (rule generate_child_run [OF assms])
  show "choice r i ! 1 = choice r i ! 2 \<longrightarrow>
          linear_combination F
               (elems pc ! pool_index i (choice r i ! 0))
               (elems pc ! pool_index i (choice r i ! 1))
               (elems pc ! pool_index i (choice r i ! 2))
            = elems pc ! pool_index i (choice r i ! 0)"
    by (simp add: linear_combination_zero)
qed

theorem generate_children_parent_pool_witness:
  "draws_ok (3 - 1) 2 example_rng_dup 0
   \<and> choice example_rng_dup 0 = [0, 1, 1]
   \<and> pool_index 0 0 = 1 \<and> pool_index 0 1 = 2
   \<and> generate_child example_parents (9/10) (1/2) False example_rng_dup 0
       = Inr [[2, 0], [1, 1]]"
proof -
  have two: "(2::nat) \<le> 3" and zero: "(0::nat) < 3" by simp_all
  from generate_children_parent_pool [OF example_parents_ok two zero example_rng_ok(2),
      of "9/10" "1/2" False]
  have run: "generate_child example_parents (9/10) (1/2) False example_rng_dup 0 =
         Inr (np_where_rows (expand_dims (map (\<lambda>u. u < 9/10) (uniform example_rng_dup 0)))
            (potential_child False (1/2)
               (elems example_parents ! pool_index 0 (choice example_rng_dup 0 ! 0))
               (elems example_parents ! pool_index 0 (choice example_rng_dup 0 ! 1))
               (elems example_parents ! pool_index 0 (choice example_rng_dup 0 ! 2)))
            (elems example_parents ! 0))"
    by blast
  have u2: "[0..<2] = [0, Suc 0]" by (simp add: upt_conv_Cons)
  have "generate_child example_parents (9/10) (1/2) False example_rng_dup 0 = Inr [[2, 0], [1, 1]]"
    unfolding run
    by (simp add: example_rng_dup_def example_parents_def pool_index_def potential_child_def
        linear_combination_def np_where_rows_def expand_dims_def u2)
  then show ?thesis
    using example_rng_ok(2) [of 0] by (simp add: example_rng_dup_def pool_index_def)
qed

subsection \<open>One generation\<close>

lemma and_then_Inr_iff: "and_then m f = Inr y \<longleftrightarrow> (\<exists>x. m = Inr x \<and> f x = Inr y)"
  by (cases m) simp_all

lemma setitem_frame:
  assumes "setitem s r i x y v = Inr s'"
  shows "next_ref s' = next_ref s" and "length (batch_at s' r) = length (batch_at s r)"
    and "q \<noteq> r \<Longrightarrow> cells s' q = cells s q"
  using assms
  by (auto simp: setitem_def batch_at_def split: option.splits tensor.splits sum.splits if_splits)

lemma pixels_loop_frame:
  assumes "pixels_loop s r i j locs vals = Inr s'"
  shows "next_ref s' = next_ref s \<and> length (batch_at s' r) = length (batch_at s r)
     \<and> (\<forall>q. q \<noteq> r \<longrightarrow> cells s' q = cells s q)"
  using assms
proof (induction locs arbitrary: s j)
  case Nil
  then show ?case by simp
next
  case (Cons xy locs)
  from Cons.prems obtain x y zs s1 where xy: "xy = x # y # zs"
      and s1: "setitem s r i x y (vals ! j) = Inr s1"
      and rest: "pixels_loop s1 r i (Suc j) locs vals = Inr s'"
    by (auto split: list.splits sum.splits)
  from Cons.IH [OF rest] setitem_frame [OF s1] show ?case by simp
qed

lemma candidates_loop_frame:
  assumes "candidates_loop s r i pairs = Inr s'"
  shows "next_ref s' = next_ref s \<and> length (batch_at s' r) = length (batch_at s r)
     \<and> (\<forall>q. q \<noteq> r \<longrightarrow> cells s' q = cells s q)"
  using assms
proof (induction pairs arbitrary: s i)
  case Nil
  then show ?case by simp
next
  case (Cons pair pairs)
  obtain locs vals where pair: "pair = (locs, vals)" by (cases pair)
  from Cons.prems pair obtain s1 where s1: "pixels_loop s r i 0 locs vals = Inr s1"
      and rest: "candidates_loop s1 r (Suc i) pairs = Inr s'"
    by (auto split: sum.splits)
  from Cons.IH [OF rest] pixels_loop_frame [OF s1] show ?case by simp
qed

lemma generate_image_variants_returns:
  assumes "generate_image_variants s img coords vals = Inr (r, s')"
  shows "r = next_ref s \<and> next_ref s' = Suc (next_ref s)
     \<and> length (batch_at s' r) = fst (shape coords)
     \<and> (\<forall>q. q \<noteq> r \<longrightarrow> cells s' q = cells s q)"
proof -
  from assms obtain base where base: "cells s img = Some (Image base)"
    by (auto simp: generate_image_variants_def repeat_n_def detach_def
        split: if_splits sum.splits option.splits tensor.splits)
  let ?s1 = "\<lparr>cells = (cells s)(next_ref s \<mapsto> Batch (replicate (fst (shape coords)) base)),
              next_ref = Suc (next_ref s)\<rparr>"
  have rep: "repeat_n s (detach s img) (fst (shape coords)) = Inr (next_ref s, ?s1)"
    using base by (simp add: repeat_n_def detach_def alloc_def)
  with assms have r: "r = next_ref s"
      and loop: "candidates_loop ?s1 (next_ref s) 0 (zip (elems coords) (elems vals)) = Inr s'"
    by (auto simp: generate_image_variants_def split: if_splits sum.splits)
  from candidates_loop_frame [OF loop] r show ?thesis
    by (simp add: batch_at_def)
qed


lemma map_elems_shape [simp]: "shape (map_elems f a) = shape a"
  by (simp add: map_elems_def)

lemma well_shaped_map_elems: "well_shaped (map_elems f a) = well_shaped a"
  by (simp add: well_shaped_def map_elems_def list_all_length)

lemma nested_map_nth:
  assumes "length xs = P" and "\<forall>j<P. length (xs ! j) = D"
  shows "map (\<lambda>j. map (\<lambda>k. xs ! j ! k) [0..<D]) [0..<P] = xs"
proof (rule nth_equalityI)
  show "length (map (\<lambda>j. map (\<lambda>k. xs ! j ! k) [0..<D]) [0..<P]) = length xs"
    using assms(1) by simp
  fix j assume "j < length (map (\<lambda>j. map (\<lambda>k. xs ! j ! k) [0..<D]) [0..<P])"
  then have j: "j < P" by simp
  with assms(2) have "map (\<lambda>k. xs ! j ! k) [0..<D] = xs ! j"
    by (metis map_nth)
  with j show "map (\<lambda>j. map (\<lambda>k. xs ! j ! k) [0..<D]) [0..<P] ! j = xs ! j" by simp
qed

lemma np_where_agents_rows:
  assumes "well_shaped x" and "well_shaped y" and "shape x = (N, P, D)" and "shape y = (N, P, D)"
    and "length cond = N"
  shows "\<exists>z. np_where_agents cond x y = Inr z \<and> shape z = (N, P, D)
     \<and> (\<forall>i<N. elems z ! i = (if cond ! i then elems x ! i else elems y ! i))"
proof -
  note lx = well_shaped_lengths [OF assms(1), unfolded assms(3), simplified]
  note ly = well_shaped_lengths [OF assms(2), unfolded assms(4), simplified]
  define g where "g = (\<lambda>i::nat. if N = 1 then 0 else i)"
  let ?z = "\<lparr>shape = (N, P, D),
       elems = map (\<lambda>i. map (\<lambda>j. map (\<lambda>k.
                         if cond ! g i then elems x ! g i ! j ! k else elems y ! g i ! j ! k)
                       [0..<D]) [0..<P]) [0..<N]\<rparr>"
  have run: "np_where_agents cond x y = Inr ?z"
    using assms(4,5) by (simp add: np_where_agents_def Let_def g_def)
  have "elems ?z ! i = (if cond ! i then elems x ! i else elems y ! i)" if i: "i < N" for i
  proof -
    have gi: "g i = i" using i by (auto simp: g_def)
    have rx: "map (\<lambda>j. map (\<lambda>k. elems x ! i ! j ! k) [0..<D]) [0..<P] = elems x ! i"
      by (rule nested_map_nth) (use i lx in simp_all)
    have ry: "map (\<lambda>j. map (\<lambda>k. elems y ! i ! j ! k) [0..<D]) [0..<P] = elems y ! i"
      by (rule nested_map_nth) (use i ly in simp_all)
    show ?thesis
    proof (cases "cond ! i")
      case True
      then show ?thesis using i rx by (simp add: gi)
    next
      case False
      then show ?thesis using i ry by (simp add: gi)
    qed
  qed
  with run show ?thesis by (intro exI [of _ ?z]) simp
qed

lemma generate_children_well_shaped:
  assumes "well_shaped pc" and "shape pc = (N, P, D)" and "2 \<le> N"
    and "\<forall>i<N. draws_ok (N - 1) P r i"
    and "generate_children pc cr F rounded r = Inr children"
  shows "well_shaped children \<and> shape children = (N, P, D)"
proof -
  note wl = well_shaped_lengths [OF assms(1), unfolded assms(2), simplified]
  from generate_children_run [OF assms(1-4), of cr F rounded] assms(5)
  have c: "children = \<lparr>shape = (N, P, D),
          elems = map (\<lambda>i. np_where_rows (expand_dims (map (\<lambda>u. u < cr) (uniform r i)))
            (potential_child rounded F
               (elems pc ! pool_index i (choice r i ! 0))
               (elems pc ! pool_index i (choice r i ! 1))
               (elems pc ! pool_index i (choice r i ! 2)))
            (elems pc ! i)) [0..<N]\<rparr>"
    by simp
  have "well_shaped children"
    unfolding c by (rule well_shapedI) (simp_all add: np_where_rows_def wl)
  then show ?thesis using c by simp
qed

lemma column_length: "column l k = Inr col \<Longrightarrow> length col = length (rows l)"
  by (auto simp: column_def split: sum.splits)

lemma broadcast2_length:
  "broadcast2 f xs ys = Inr zs \<Longrightarrow> length xs = length ys \<Longrightarrow> length zs = length xs"
  by (auto simp: broadcast2_def)

lemma evaluation_step_mask_length:
  assumes "evaluation_step model parent_imgs child_imgs t a = Inr (update_mask, nt, na)"
    and "\<forall>imgs l. model imgs = Inr l \<longrightarrow> length (rows l) = length imgs"
    and "length parent_imgs = N" and "length child_imgs = N"
  shows "length update_mask = N"
proof -
  from assms(1) obtain pl cl pt pa ct ca where m: "model parent_imgs = Inr pl" "model child_imgs = Inr cl"
      and cols: "column pl t = Inr pt" "column pl a = Inr pa" "column cl t = Inr ct" "column cl a = Inr ca"
      and mask: "broadcast2 (\<lambda>c p. c \<ge> p) (map2 (\<lambda>t a. t - a) ct ca) (map2 (\<lambda>t a. t - a) pt pa)
                  = Inr update_mask"
    by (auto simp: evaluation_step_def and_then_Inr_iff Let_def split: if_splits)
  from m assms(2,3,4) have "length (rows pl) = N" "length (rows cl) = N" by auto
  with cols have "length pt = N" "length pa = N" "length ct = N" "length ca = N"
    by (auto dest: column_length)
  then show ?thesis
    using broadcast2_length [OF mask] by simp
qed

text \<open>
  C9. Whenever a generation step on \<open>N \<ge> 2\<close> agents returns, the classifier scoring every
  image it is given, the child coordinates come from \<^verbatim>\<open>generate_children\<close> with rounding
  enabled and the child colours from \<^verbatim>\<open>generate_children\<close> with rounding disabled, both
  with the same \<open>cr\<close> and \<open>F\<close>, each then repaired; the mask has one entry per agent, and
  for every agent \<open>i\<close> the next-generation coordinates and colours are both the repaired
  child's when entry \<open>i\<close> of the mask is true and both the parent's when it is false.
\<close>

theorem evolution_step_selection:
  assumes wc: "well_shaped parent_coords" and sc: "shape parent_coords = (N, P, Dc)"
    and wv: "well_shaped parent_pixel_vals" and sv: "shape parent_pixel_vals = (N, P, Dv)"
    and n2: "2 \<le> N"
    and dc: "\<forall>i<N. draws_ok (N - 1) P r_coords i" and dv: "\<forall>i<N. draws_ok (N - 1) P r_vals i"
    and img: "cells s img = Some (Image base)" and sb: "shape base = (C, H, W)"
    and model: "\<forall>imgs l. model imgs = Inr l \<longrightarrow> length (rows l) = length imgs"
    and run: "evolution_step s model img parent_coords parent_pixel_vals target_class actual_class
                cr_prob F r_coords r_vals
              = Inr ((update_mask, next_gen_coords, next_gen_pixel_vals, stop, best_agent), s')"
  shows "\<exists>child_coords0 child_pixel_values0.
      generate_children (astype_float parent_coords) cr_prob F True r_coords = Inr child_coords0
    \<and> generate_children parent_pixel_vals cr_prob F False r_vals = Inr child_pixel_values0
    \<and> length update_mask = N
    \<and> (\<forall>i<N. elems next_gen_coords ! i =
               (if update_mask ! i
                then elems (repair_coords (int H) (astype_int child_coords0)) ! i
                else elems parent_coords ! i)
           \<and> elems next_gen_pixel_vals ! i =
               (if update_mask ! i
                then elems (repair_pixel_values child_pixel_values0) ! i
                else elems parent_pixel_vals ! i))"
proof -
  from run obtain cc0 cv0 isz pv cvr ev stp where
      g1: "generate_children (astype_float parent_coords) cr_prob F True r_coords = Inr cc0"
    and g2: "generate_children parent_pixel_vals cr_prob F False r_vals = Inr cv0"
    and sz: "(case cells s img of Some (Image base) \<Rightarrow> Inr (int (fst (snd (shape base))))
                                | _ \<Rightarrow> Inl TypeError) = Inr isz"
    and v1: "generate_image_variants s img parent_coords parent_pixel_vals = Inr pv"
    and v2: "generate_image_variants (snd pv) img (repair_coords isz (astype_int cc0))
               (repair_pixel_values cv0) = Inr cvr"
    and ev: "evaluation_step model (batch_at (snd cvr) (fst pv)) (batch_at (snd cvr) (fst cvr))
               target_class actual_class = Inr ev"
    and st: "stopping_criterion (fst (snd ev)) (snd (snd ev)) = Inr stp"
    and w1: "np_where_agents (fst ev) (repair_coords isz (astype_int cc0)) parent_coords
               = Inr next_gen_coords"
    and w2: "np_where_agents (fst ev) (repair_pixel_values cv0) parent_pixel_vals
               = Inr next_gen_pixel_vals"
    and res: "update_mask = fst ev" "s' = snd cvr"
    unfolding evolution_step_def and_then_Inr_iff Let_def by auto
  have isz: "isz = int H"
    using sz img sb by simp
  let ?child_coords = "repair_coords (int H) (astype_int cc0)"
  let ?child_vals = "repair_pixel_values cv0"
  have "well_shaped (astype_float parent_coords)" "shape (astype_float parent_coords) = (N, P, Dc)"
    using wc sc by (simp_all add: astype_float_def well_shaped_map_elems)
  from generate_children_well_shaped [OF this n2 dc g1]
  have cc0: "well_shaped cc0" "shape cc0 = (N, P, Dc)" by simp_all
  have cc: "well_shaped ?child_coords" "shape ?child_coords = (N, P, Dc)"
    using cc0 by (simp_all add: repair_coords_def astype_int_def well_shaped_map_elems Let_def)
  from generate_children_well_shaped [OF wv sv n2 dv g2]
  have cv0: "well_shaped cv0" "shape cv0 = (N, P, Dv)" by simp_all
  have cv: "well_shaped ?child_vals" "shape ?child_vals = (N, P, Dv)"
    using cv0 by (simp_all add: repair_pixel_values_def well_shaped_map_elems Let_def)
  obtain r1 s1 where pv: "pv = (r1, s1)" by (cases pv)
  obtain r2 s2 where cvr: "cvr = (r2, s2)" by (cases cvr)
  from generate_image_variants_returns [OF v1 [unfolded pv]] sc
  have p1: "r1 = next_ref s" "next_ref s1 = Suc (next_ref s)" "length (batch_at s1 r1) = N"
    by auto
  from generate_image_variants_returns [OF v2 [unfolded pv cvr isz, simplified]] cc(2)
  have p2: "r2 = next_ref s1" "length (batch_at s2 r2) = N"
      "\<forall>q. q \<noteq> r2 \<longrightarrow> cells s2 q = cells s1 q"
    by auto
  have "r1 \<noteq> r2" using p1 p2(1) by simp
  with p2(3) have "batch_at s2 r1 = batch_at s1 r1"
    by (simp add: batch_at_def)
  with p1(3) have lp: "length (batch_at s2 r1) = N" by simp
  have ev3: "evaluation_step model (batch_at s2 r1) (batch_at s2 r2) target_class actual_class
      = Inr (fst ev, fst (snd ev), snd (snd ev))"
    using ev pv cvr by simp
  from evaluation_step_mask_length [OF ev3 model lp p2(2)]
  have lm: "length (fst ev) = N" .
  from np_where_agents_rows [OF cc(1) wc cc(2) sc lm] w1 isz
  have rows_c: "\<forall>i<N. elems next_gen_coords ! i =
      (if fst ev ! i then elems ?child_coords ! i else elems parent_coords ! i)"
    by auto
  from np_where_agents_rows [OF cv(1) wv cv(2) sv lm] w2
  have rows_v: "\<forall>i<N. elems next_gen_pixel_vals ! i =
      (if fst ev ! i then elems ?child_vals ! i else elems parent_pixel_vals ! i)"
    by auto
  show ?thesis
    using g1 g2 lm rows_c rows_v res(1) by blast
qed

lemma upt_two: "[0..<2] = [0, Suc 0]" by (simp add: upt_conv_Cons)

lemma replicate_two: "replicate 2 x = [x, x]" by (simp add: numeral_2_eq_2)

lemma example_child_coords: "generate_children (astype_float example_coords) (9/10) (1/2) True example_rng_pair
   = Inr \<lparr>shape = (2, 1, 2), elems = [[[1, 1]], [[0, 0]]]\<rparr>"
  by (simp add: generate_children_def generate_child_def example_coords_def example_rng_pair_def
      astype_float_def map_elems_def upt_two np_delete_def potential_child_def linear_combination_def
      np_where_rows_def expand_dims_def rint_def Let_def)


lemma example_child_vals: "generate_children example_pixel_vals (9/10) (1/2) False example_rng_pair
   = Inr \<lparr>shape = (2, 1, 1), elems = [[[1/4]], [[1/2]]]\<rparr>"
  by (simp add: generate_children_def generate_child_def example_pixel_vals_def example_rng_pair_def
      upt_two np_delete_def potential_child_def linear_combination_def
      np_where_rows_def expand_dims_def Let_def)

lemma example_run: "map_sum id fst (evolution_step example_store stub_classifier 0 example_coords
      example_pixel_vals 0 1 (9/10) (1/2) example_rng_pair example_rng_pair)
   = Inr ([False, True], \<lparr>shape = (2, 1, 2), elems = [[[0, 0]], [[0, 0]]]\<rparr>,
          \<lparr>shape = (2, 1, 1), elems = [[[1/2]], [[1/2]]]\<rparr>, True, Some [[0], [1]])"
  apply (simp only: evolution_step_def example_child_coords example_child_vals and_then_Inr)
  apply (simp add: astype_int_def repair_coords_def repair_pixel_values_def
      map_elems_def compositing_defs example_coords_def example_pixel_vals_def
      evaluation_step_def stub_classifier_def column_def broadcast2_def where1_def
      stopping_criterion_def any_true_def nonzero_def np_where_agents_def upt_two replicate_two Let_def)
  done


theorem evolution_step_selection_witness:
  "map_sum id fst (evolution_step example_store stub_classifier 0 example_coords
      example_pixel_vals 0 1 (9/10) (1/2) example_rng_pair example_rng_pair)
     = Inr ([False, True], \<lparr>shape = (2, 1, 2), elems = [[[0, 0]], [[0, 0]]]\<rparr>,
          \<lparr>shape = (2, 1, 1), elems = [[[1/2]], [[1/2]]]\<rparr>, True, Some [[0], [1]])
   \<and> (\<exists>child_coords0 child_pixel_values0.
        generate_children (astype_float example_coords) (9/10) (1/2) True example_rng_pair
          = Inr child_coords0
      \<and> generate_children example_pixel_vals (9/10) (1/2) False example_rng_pair
          = Inr child_pixel_values0
      \<and> [[0, 0]] = elems example_coords ! 0
      \<and> [[0, 0]] = elems (repair_coords 2 (astype_int child_coords0)) ! 1
      \<and> [[1/2]] = elems example_pixel_vals ! 0
      \<and> [[1/2]] = elems (repair_pixel_values child_pixel_values0) ! 1)"
proof
  let ?nc = "\<lparr>shape = (2::nat, 1::nat, 2::nat), elems = [[[0::int, 0]], [[0, 0]]]\<rparr>"
  let ?nv = "\<lparr>shape = (2::nat, 1::nat, 1::nat), elems = [[[1/2::real]], [[1/2]]]\<rparr>"
  show r: "map_sum id fst (evolution_step example_store stub_classifier 0 example_coords
      example_pixel_vals 0 1 (9/10) (1/2) example_rng_pair example_rng_pair)
     = Inr ([False, True], ?nc, ?nv, True, Some [[0], [1]])"
    by (rule example_run)
  then obtain s' where run: "evolution_step example_store stub_classifier 0 example_coords
      example_pixel_vals 0 1 (9/10) (1/2) example_rng_pair example_rng_pair
     = Inr (([False, True], ?nc, ?nv, True, Some [[0], [1]]), s')"
    by (cases "evolution_step example_store stub_classifier 0 example_coords
      example_pixel_vals 0 1 (9/10) (1/2) example_rng_pair example_rng_pair") auto
  have wc: "well_shaped example_coords" "shape example_coords = (2, 1, 2)"
    and wv: "well_shaped example_pixel_vals" "shape example_pixel_vals = (2, 1, 1)"
    by (simp_all add: example_coords_def example_pixel_vals_def well_shaped_def)
  have dr: "\<forall>i<2. draws_ok (2 - 1) 1 example_rng_pair i"
    by (simp add: draws_ok_def example_rng_pair_def)
  have img: "cells example_store 0 = Some (Image black_2x2)" "shape black_2x2 = (1, 2, 2)"
    by (simp_all add: example_store_def black_2x2_def)
  have model: "\<forall>imgs l. stub_classifier imgs = Inr l \<longrightarrow> length (rows l) = length imgs"
    by (auto simp: stub_classifier_def)
  have two: "(2::nat) \<le> 2" by simp
  from evolution_step_selection [OF wc wv two dr dr img model run]
  obtain cc0 cv0 where c: "generate_children (astype_float example_coords) (9/10) (1/2) True
        example_rng_pair = Inr cc0"
      "generate_children example_pixel_vals (9/10) (1/2) False example_rng_pair = Inr cv0"
    and sel: "\<forall>i<2. elems ?nc ! i =
               (if [False, True] ! i
                then elems (repair_coords (int 2) (astype_int cc0)) ! i
                else elems example_coords ! i)
           \<and> elems ?nv ! i =
               (if [False, True] ! i
                then elems (repair_pixel_values cv0) ! i
                else elems example_pixel_vals ! i)"
    by blast
  from sel have "elems ?nc ! 0 = elems example_coords ! 0 \<and> elems ?nv ! 0 = elems example_pixel_vals ! 0"
    by (metis (no_types) nth_Cons_0 pos2)
  moreover from sel have "elems ?nc ! 1 = elems (repair_coords (int 2) (astype_int cc0)) ! 1
      \<and> elems ?nv ! 1 = elems (repair_pixel_values cv0) ! 1"
    by (metis (no_types) One_nat_def nth_Cons_0 nth_Cons_Suc one_less_numeral_iff semiring_norm(76))
  ultimately show "\<exists>child_coords0 child_pixel_values0.
        generate_children (astype_float example_coords) (9/10) (1/2) True example_rng_pair
          = Inr child_coords0
      \<and> generate_children example_pixel_vals (9/10) (1/2) False example_rng_pair
          = Inr child_pixel_values0
      \<and> [[0, 0]] = elems example_coords ! 0
      \<and> [[0, 0]] = elems (repair_coords 2 (astype_int child_coords0)) ! 1
      \<and> [[1/2]] = elems example_pixel_vals ! 0
      \<and> [[1/2]] = elems (repair_pixel_values child_pixel_values0) ! 1"
    using c by (intro exI [of _ cc0] exI [of _ cv0]) simp
qed

end
